theory Spec2Isabelle
  imports Complex_Main "HOL-Library.Multiset"
begin

section \<open>Errors and values\<close>

text \<open>
  The Python exceptions that the two scripts can raise on the paths modelled here.
  Every raise is a value \<open>Inl e\<close> (or an outcome \<open>Failed e\<close>) of the model.
\<close>

datatype error =
    ZeroDivisionError
  | FileNotFoundError
  | UnpicklingError
  | OSError
  | ValueError
  | RuntimeError

section \<open>Configuration sampling (\<open>paramRayTune.py\<close>, \<open>main\<close>, lines 177-182)\<close>

record config =
  l1 :: int
  l2 :: int
  lr :: real
  batch_size :: int

text \<open>
  The random source is explicit: one record of raw draws per sampled configuration.
  \<open>raw_l1\<close>, \<open>raw_l2\<close> and \<open>raw_batch_size\<close> are raw unsigned draws, \<open>unit_lr\<close>
  is the draw of the unit-interval generator behind \<open>uniform\<close>.
\<close>

record draws =
  raw_l1 :: nat
  raw_l2 :: nat
  unit_lr :: real
  raw_batch_size :: nat

text \<open>
  \<open>np.random.randint(low, high)\<close>: an integer of the half-open range \<open>[low, high)\<close>;
  the raw draw is reduced into the range.
\<close>

definition randint :: "int \<Rightarrow> int \<Rightarrow> nat \<Rightarrow> int" where
  "randint low high r = low + int r mod (high - low)"

text \<open>\<open>uniform(a, b)\<close> stretches a unit-interval draw \<open>u\<close> to \<open>a + (b - a) * u\<close>.\<close>

definition uniform :: "real \<Rightarrow> real \<Rightarrow> real \<Rightarrow> real" where
  "uniform a b u = a + (b - a) * u"

text \<open>
  \<open>tune.loguniform(lower, upper)\<close> with its default base 10: ten to the power of a
  uniform draw between the logarithms of the bounds. Reals stand for the floats.
\<close>

definition loguniform :: "real \<Rightarrow> real \<Rightarrow> real \<Rightarrow> real" where
  "loguniform lower upper u = 10 powr uniform (log 10 lower) (log 10 upper) u"

text \<open>\<open>tune.choice(xs)\<close>: one element of the list, picked by the raw draw.\<close>

definition choice :: "'a list \<Rightarrow> nat \<Rightarrow> 'a" where
  "choice xs r = xs ! (r mod length xs)"

text \<open>
  The search space of \<open>main\<close>, resolved with one record of draws:
  \<^verbatim>\<open>
  'l1'        : tune.sample_from(lambda _: 2**np.random.randint(2, 9)),
  'l2'        : tune.sample_from(lambda _: 2**np.random.randint(2, 9)),
  'lr'        : tune.loguniform(1e-4, 1e-1),
  'batch_size': tune.choice([2, 4, 8, 16])
  \<close>
\<close>

definition sample_config :: "draws \<Rightarrow> config" where
  "sample_config d =
     \<lparr> l1 = 2 ^ nat (randint 2 9 (raw_l1 d)),
       l2 = 2 ^ nat (randint 2 9 (raw_l2 d)),
       lr = loguniform (1 / 10 ^ 4) (1 / 10 ^ 1) (unit_lr d),
       batch_size = choice [2, 4, 8, 16] (raw_batch_size d) \<rparr>"

section \<open>Datasets, random split and loaders (\<open>paramRayTune.py\<close>, lines 74-91)\<close>

text \<open>A labelled sample: an input and its class label.\<close>

type_synonym 'x sample = "'x \<times> nat"

text \<open>
  \<open>torch.randperm(n)\<close>: a permutation of \<open>0..n-1\<close> drawn from the generator. The
  generator's draw is an explicit argument, a key per index; the permutation lists the
  indices by ascending key. Every key function gives a permutation, and every
  permutation is given by some key function.
\<close>

definition randperm :: "(nat \<Rightarrow> nat) \<Rightarrow> nat \<Rightarrow> nat list" where
  "randperm key n = sort_key key [0..<n]"

text \<open>\<open>Subset(dataset, indices)\<close>: the samples at the given indices, in that order.\<close>

definition Subset :: "'a list \<Rightarrow> nat list \<Rightarrow> 'a list" where
  "Subset ds indices = map (\<lambda>i. ds ! i) indices"

text \<open>
  \<open>random_split(dataset, [a, b])\<close>: refuses lengths that do not add up to the dataset,
  then cuts one random permutation of the indices into the first \<open>a\<close> and the next \<open>b\<close>.
\<close>

definition random_split ::
  "(nat \<Rightarrow> nat) \<Rightarrow> 'a list \<Rightarrow> nat \<Rightarrow> nat \<Rightarrow> error + 'a list \<times> 'a list" where
  "random_split key ds a b =
     (if a + b \<noteq> length ds then Inl ValueError
      else let indices = randperm key (a + b)
           in Inr (Subset ds (take a indices), Subset ds (take b (drop a indices))))"

text \<open>
  Lines 77-78 of \<open>train_cifar\<close>:
  \<^verbatim>\<open>
  test_abs = int(len(trainset) * 0.8)
  train_subset, val_subset = random_split(trainset, [test_abs, len(trainset) - test_abs])
  \<close>
  \<open>int(n * 0.8)\<close> is written as \<open>4 * n div 5\<close>: the double nearest to 0.8 lies above 0.8
  by less than \<open>5e-17\<close>, so for every length below \<open>10^15\<close>, far beyond any dataset
  that fits in memory, the rounded product truncates to the same integer.
\<close>

definition train_val_split ::
  "(nat \<Rightarrow> nat) \<Rightarrow> 'a list \<Rightarrow> error + 'a list \<times> 'a list" where
  "train_val_split key trainset =
     (let test_abs = 4 * length trainset div 5
      in random_split key trainset test_abs (length trainset - test_abs))"

record 'a data_loader =
  dl_dataset :: "'a list"
  dl_batch_size :: nat
  dl_shuffle :: bool

text \<open>
  \<open>DataLoader(dataset, batch_size, shuffle)\<close>. With \<open>shuffle=True\<close> the constructor
  builds a random sampler, which refuses a dataset without samples; the batch sampler
  refuses a batch size that is not positive. Both raise \<open>ValueError\<close>.
\<close>

definition DataLoader :: "'a list \<Rightarrow> int \<Rightarrow> bool \<Rightarrow> error + 'a data_loader" where
  "DataLoader ds bs sh =
     (if sh \<and> ds = [] then Inl ValueError
      else if bs \<le> 0 then Inl ValueError
      else Inr \<lparr>dl_dataset = ds, dl_batch_size = nat bs, dl_shuffle = sh\<rparr>)"

text \<open>Consecutive batches of \<open>n\<close> samples; the last one may be shorter.\<close>

function chunks :: "nat \<Rightarrow> 'a list \<Rightarrow> 'a list list" where
  "chunks n xs = (if n = 0 \<or> xs = [] then [] else take n xs # chunks n (drop n xs))"
  by pat_completeness auto
termination
  by (relation "measure (\<lambda>(n, xs). length xs)") auto

declare chunks.simps [simp del]

text \<open>
  One pass over a loader: the dataset in a fresh random order when \<open>shuffle=True\<close>, in
  its own order otherwise, cut into batches.
\<close>

definition batches :: "(nat \<Rightarrow> nat) \<Rightarrow> ('a, 'm) data_loader_scheme \<Rightarrow> 'a list list" where
  "batches key dl =
     chunks (dl_batch_size dl)
       (if dl_shuffle dl then Subset (dl_dataset dl) (randperm key (length (dl_dataset dl)))
        else dl_dataset dl)"

section \<open>The deep-learning framework and the trial's surroundings\<close>

text \<open>
  The operations of the external framework that \<open>train_cifar\<close> calls, over abstract
  parameters \<open>'p\<close>, optimizer state \<open>'o\<close> and inputs \<open>'x\<close>:
  \<^item> \<open>fw_Net l1 l2\<close>: the freshly initialised parameters of \<open>Net(l1, l2)\<close>;
  \<^item> \<open>fw_SGD p lr\<close>: the state of \<open>optim.SGD(net.parameters(), lr=lr, momentum=0.9)\<close>;
  \<^item> \<open>fw_predict p x\<close>: the class \<open>torch.max(net(x), 1)\<close> picks;
  \<^item> \<open>fw_criterion p b\<close>: \<open>criterion(net(inputs), labels)\<close> on batch \<open>b\<close>;
  \<^item> \<open>fw_step p s b\<close>: \<open>zero_grad\<close>, forward, \<open>backward\<close> and \<open>optimizer.step()\<close> on \<open>b\<close>.
  \<open>Net\<close> has convolution, pooling and linear layers only, so a forward pass reads the
  parameters and changes nothing.
\<close>

record ('p, 'o, 'x) framework =
  fw_Net :: "int \<Rightarrow> int \<Rightarrow> 'p"
  fw_SGD :: "'p \<Rightarrow> real \<Rightarrow> 'o"
  fw_predict :: "'p \<Rightarrow> 'x \<Rightarrow> nat"
  fw_criterion :: "'p \<Rightarrow> 'x sample list \<Rightarrow> real"
  fw_step :: "'p \<Rightarrow> 'o \<Rightarrow> 'x sample list \<Rightarrow> 'p \<times> 'o"

text \<open>A file holds a pickled \<open>(model_state, optimizer_state)\<close> pair or something else.\<close>

datatype ('p, 'o) stored = Pickled 'p 'o | Garbage

type_synonym ('p, 'o) filesystem = "string \<rightharpoonup> ('p, 'o) stored"

text \<open>\<open>os.path.join(a, b)\<close> on POSIX, for two components.\<close>

definition path_join :: "string \<Rightarrow> string \<Rightarrow> string" where
  "path_join a b =
     (if b \<noteq> [] \<and> hd b = CHR ''/'' then b
      else if a = [] \<or> last a = CHR ''/'' then a @ b
      else a @ ''/'' @ b)"

text \<open>\<open>torch.load(path)\<close> raises when the file is missing or cannot be unpickled.\<close>

definition torch_load :: "('p, 'o) filesystem \<Rightarrow> string \<Rightarrow> error + 'p \<times> 'o" where
  "torch_load fs path =
     (case fs path of
        None \<Rightarrow> Inl FileNotFoundError
      | Some Garbage \<Rightarrow> Inl UnpicklingError
      | Some (Pickled p s) \<Rightarrow> Inr (p, s))"

text \<open>
  What surrounds one trial:
  \<^item> \<open>load_data\<close>: the result of \<open>load_data(data_dir)\<close>, the train and test sets or the
    download's error;
  \<^item> \<open>split_keys\<close>, \<open>train_keys epoch\<close>, \<open>val_keys epoch\<close>: the generator's draws for
    \<open>random_split\<close> and for each pass over the two shuffling loaders;
  \<^item> \<open>checkpoint_dir_of epoch\<close>: the directory \<open>tune.checkpoint_dir(epoch)\<close> hands out;
  \<^item> \<open>writable path\<close>: whether \<open>torch.save\<close> to the path succeeds;
  \<^item> \<open>should_stop iteration loss accuracy\<close>: the scheduler's decision on the report
    that is the trial's \<open>iteration\<close>-th, counted from 1.
\<close>

record 'x environment =
  load_data :: "error + 'x sample list \<times> 'x sample list"
  split_keys :: "nat \<Rightarrow> nat"
  train_keys :: "nat \<Rightarrow> nat \<Rightarrow> nat"
  val_keys :: "nat \<Rightarrow> nat \<Rightarrow> nat"
  checkpoint_dir_of :: "nat \<Rightarrow> string"
  writable :: "string \<Rightarrow> bool"
  should_stop :: "nat \<Rightarrow> real \<Rightarrow> real \<Rightarrow> bool"

text \<open>
  The observable events of a trial, in the order they happen. \<open>Optimizer_step epoch i\<close>
  records the call of \<open>optimizer.step()\<close> on mini-batch \<open>i\<close>; \<open>Checkpoint epoch path\<close>
  the completed \<open>torch.save\<close>; \<open>Report epoch loss accuracy\<close> the call of \<open>tune.report\<close>
  made in that epoch.
\<close>

datatype event =
    Optimizer_step nat nat
  | Print_loss nat nat real
  | Checkpoint nat string
  | Report nat real real
  | Print_finished

record ('p, 'o) trial =
  net :: 'p
  opt :: 'o
  files :: "('p, 'o) filesystem"
  trace :: "event list"

datatype outcome = Finished | Stopped | Failed error

section \<open>The training loop (\<open>paramRayTune.py\<close>, \<open>train_cifar\<close>)\<close>

text \<open>
  Lines 95-118, the pass over \<open>enumerate(trainloader, 0)\<close>, with the accumulators
  \<open>running_loss\<close> and \<open>epoch_steps\<close>.
\<close>

fun train_batches ::
  "('p, 'o, 'x) framework \<Rightarrow> nat \<Rightarrow> (nat \<times> 'x sample list) list \<Rightarrow> real \<Rightarrow> nat
     \<Rightarrow> ('p, 'o) trial \<Rightarrow> ('p, 'o) trial" where
  "train_batches fw epoch [] running_loss epoch_steps st = st"
| "train_batches fw epoch ((i, b) # rest) running_loss epoch_steps st =
     (let loss = fw_criterion fw (net st) b;
          (p, s) = fw_step fw (net st) (opt st) b;
          st1 = st\<lparr>net := p, opt := s, trace := trace st @ [Optimizer_step epoch i]\<rparr>;
          running_loss1 = running_loss + loss;
          epoch_steps1 = epoch_steps + 1
      in if i mod 2000 = 1999
         then train_batches fw epoch rest 0 epoch_steps1
                (st1\<lparr>trace := trace st1 @
                   [Print_loss (epoch + 1) (i + 1) (running_loss1 / real epoch_steps1)]\<rparr>)
         else train_batches fw epoch rest running_loss1 epoch_steps1 st1)"

definition train_pass ::
  "('p, 'o, 'x) framework \<Rightarrow> 'x environment \<Rightarrow> 'x sample data_loader \<Rightarrow> nat
     \<Rightarrow> ('p, 'o) trial \<Rightarrow> ('p, 'o) trial" where
  "train_pass fw env trainloader epoch st =
     train_batches fw epoch (enumerate 0 (batches (train_keys env epoch) trainloader)) 0 0 st"

text \<open>Lines 121-137, the pass over the validation loader under \<open>torch.no_grad()\<close>.\<close>

record val_stats =
  val_loss :: real
  val_steps :: nat
  total :: nat
  correct :: nat

definition correctly_predicted :: "('p, 'o, 'x) framework \<Rightarrow> 'p \<Rightarrow> 'x sample \<Rightarrow> bool" where
  "correctly_predicted fw p s = (fw_predict fw p (fst s) = snd s)"

fun validate ::
  "('p, 'o, 'x) framework \<Rightarrow> 'p \<Rightarrow> 'x sample list list \<Rightarrow> val_stats \<Rightarrow> val_stats" where
  "validate fw p [] acc = acc"
| "validate fw p (b # bs) acc =
     validate fw p bs
       (acc\<lparr>total := total acc + length b,
            correct := correct acc + length (filter (correctly_predicted fw p) b),
            val_loss := val_loss acc + fw_criterion fw p b,
            val_steps := val_steps acc + 1\<rparr>)"

definition validation_pass ::
  "('p, 'o, 'x) framework \<Rightarrow> 'x environment \<Rightarrow> 'x sample data_loader \<Rightarrow> nat
     \<Rightarrow> ('p, 'o) trial \<Rightarrow> ('p, 'o) trial \<times> val_stats" where
  "validation_pass fw env valloader epoch st =
     (st, validate fw (net st) (batches (val_keys env epoch) valloader)
            \<lparr>val_loss = 0, val_steps = 0, total = 0, correct = 0\<rparr>)"

text \<open>
  Lines 146-148, the checkpoint: \<open>torch.save\<close> of the two state dictionaries into the
  directory the scheduler hands out for this epoch.
\<close>

definition save_checkpoint ::
  "'x environment \<Rightarrow> nat \<Rightarrow> ('p, 'o) trial \<Rightarrow> error + ('p, 'o) trial" where
  "save_checkpoint env epoch st =
     (let path = path_join (checkpoint_dir_of env epoch) ''checkpoint''
      in if writable env path
         then Inr (st\<lparr>files := (files st)(path \<mapsto> Pickled (net st) (opt st)),
                      trace := trace st @ [Checkpoint epoch path]\<rparr>)
         else Inl OSError)"

text \<open>
  Line 150, \<open>tune.report(loss=(val_loss / val_steps), accuracy = correct / total)\<close>:
  both divisions raise on a zero divisor, the first one first.
\<close>

definition report_metrics :: "val_stats \<Rightarrow> error + real \<times> real" where
  "report_metrics m =
     (if val_steps m = 0 then Inl ZeroDivisionError
      else if total m = 0 then Inl ZeroDivisionError
      else Inr (val_loss m / real (val_steps m), real (correct m) / real (total m)))"

text \<open>
  One iteration of the loop of line 94. The result is \<open>None\<close> when the loop goes on, and
  the trial's outcome when it ends here: an exception, or the scheduler stopping the
  trial on its report.
\<close>

definition run_epoch ::
  "('p, 'o, 'x) framework \<Rightarrow> 'x environment \<Rightarrow> 'x sample data_loader
     \<Rightarrow> 'x sample data_loader \<Rightarrow> nat \<Rightarrow> ('p, 'o) trial \<Rightarrow> outcome option \<times> ('p, 'o) trial" where
  "run_epoch fw env trainloader valloader epoch st =
     (let st1 = train_pass fw env trainloader epoch st;
          (st2, m) = validation_pass fw env valloader epoch st1
      in case save_checkpoint env epoch st2 of
           Inl e \<Rightarrow> (Some (Failed e), st2)
         | Inr st3 \<Rightarrow>
             (case report_metrics m of
                Inl e \<Rightarrow> (Some (Failed e), st3)
              | Inr (loss, accuracy) \<Rightarrow>
                  (let st4 = st3\<lparr>trace := trace st3 @ [Report epoch loss accuracy]\<rparr>
                   in if should_stop env (epoch + 1) loss accuracy then (Some Stopped, st4)
                      else (None, st4))))"

text \<open>The loop \<open>for epoch in range(10)\<close> and the final \<open>print("Finished Training")\<close>.\<close>

fun epochs_loop ::
  "('p, 'o, 'x) framework \<Rightarrow> 'x environment \<Rightarrow> 'x sample data_loader
     \<Rightarrow> 'x sample data_loader \<Rightarrow> nat list \<Rightarrow> ('p, 'o) trial \<Rightarrow> outcome \<times> ('p, 'o) trial" where
  "epochs_loop fw env trainloader valloader [] st =
     (Finished, st\<lparr>trace := trace st @ [Print_finished]\<rparr>)"
| "epochs_loop fw env trainloader valloader (epoch # rest) st =
     (case run_epoch fw env trainloader valloader epoch st of
        (Some out, st') \<Rightarrow> (out, st')
      | (None, st') \<Rightarrow> epochs_loop fw env trainloader valloader rest st')"

text \<open>
  Lines 69-72, the resume: \<open>if checkpoint_dir:\<close> is false for \<open>None\<close> and for the empty
  string; otherwise the checkpoint file is loaded into the network and the optimizer.
\<close>

definition resume ::
  "string option \<Rightarrow> ('p, 'o) trial \<Rightarrow> error + ('p, 'o) trial" where
  "resume checkpoint_dir st =
     (case checkpoint_dir of
        None \<Rightarrow> Inr st
      | Some d \<Rightarrow>
          if d = [] then Inr st
          else (case torch_load (files st) (path_join d ''checkpoint'') of
                  Inl e \<Rightarrow> Inl e
                | Inr (model_state, optimizer_state) \<Rightarrow>
                    Inr (st\<lparr>net := model_state, opt := optimizer_state\<rparr>)))"

text \<open>Lines 74-91: the data, its split and the two loaders.\<close>

definition make_loaders ::
  "'x environment \<Rightarrow> config \<Rightarrow> error + 'x sample data_loader \<times> 'x sample data_loader" where
  "make_loaders env cfg =
     (case load_data env of
        Inl e \<Rightarrow> Inl e
      | Inr (trainset, testset) \<Rightarrow>
          (case train_val_split (split_keys env) trainset of
             Inl e \<Rightarrow> Inl e
           | Inr (train_subset, val_subset) \<Rightarrow>
               (case DataLoader train_subset (batch_size cfg) True of
                  Inl e \<Rightarrow> Inl e
                | Inr trainloader \<Rightarrow>
                    (case DataLoader val_subset (batch_size cfg) True of
                       Inl e \<Rightarrow> Inl e
                     | Inr valloader \<Rightarrow> Inr (trainloader, valloader)))))"

text \<open>
  \<open>train_cifar(config, checkpoint_dir, data_dir)\<close>, started on the file system \<open>fs\<close>.
  The result is the outcome and the trial's last state; a raised exception is the
  outcome \<open>Failed\<close>.
\<close>

definition train_cifar ::
  "('p, 'o, 'x) framework \<Rightarrow> 'x environment \<Rightarrow> config \<Rightarrow> string option
     \<Rightarrow> ('p, 'o) filesystem \<Rightarrow> outcome \<times> ('p, 'o) trial" where
  "train_cifar fw env cfg checkpoint_dir fs =
     (let p0 = fw_Net fw (l1 cfg) (l2 cfg);
          st0 = \<lparr>net = p0, opt = fw_SGD fw p0 (lr cfg), files = fs, trace = []\<rparr>
      in case resume checkpoint_dir st0 of
           Inl e \<Rightarrow> (Failed e, st0)
         | Inr st1 \<Rightarrow>
             (case make_loaders env cfg of
                Inl e \<Rightarrow> (Failed e, st1)
              | Inr (trainloader, valloader) \<Rightarrow>
                  epochs_loop fw env trainloader valloader [0..<10] st1))"

section \<open>Test-set accuracy (\<open>paramRayTune.py\<close>, \<open>test_accuracy\<close>)\<close>

text \<open>
  Lines 160-169: the loop over the test loader under \<open>torch.no_grad()\<close>, with the
  counters \<open>correct\<close> and \<open>total\<close>.
\<close>

fun test_batches ::
  "('p, 'o, 'x) framework \<Rightarrow> 'p \<Rightarrow> 'x sample list list \<Rightarrow> nat \<Rightarrow> nat \<Rightarrow> nat \<times> nat" where
  "test_batches fw p [] n_correct n_total = (n_correct, n_total)"
| "test_batches fw p (b # bs) n_correct n_total =
     test_batches fw p bs
       (n_correct + length (filter (correctly_predicted fw p) b)) (n_total + length b)"

text \<open>
  \<open>test_accuracy(net, device)\<close>. The network is an argument that Python passes by
  reference, so the model returns it first. The second component lists the batches on
  which the loop ran the network, in the order of the calls \<open>net(images)\<close>; the forward
  pass is the only operation the function applies to the network. The third component
  is the returned value or the exception. \<open>ld\<close> is what the call \<open>load_data()\<close> gives
  and \<open>key\<close> is the draw the generator would supply to the loader for this pass.
\<close>

definition test_accuracy ::
  "('p, 'o, 'x) framework \<Rightarrow> (nat \<Rightarrow> nat) \<Rightarrow> error + 'x sample list \<times> 'x sample list \<Rightarrow> 'p
     \<Rightarrow> 'p \<times> 'x sample list list \<times> (error + real)" where
  "test_accuracy fw key ld p =
     (case ld of
        Inl e \<Rightarrow> (p, [], Inl e)
      | Inr (trainset, testset) \<Rightarrow>
          (case DataLoader testset 4 False of
             Inl e \<Rightarrow> (p, [], Inl e)
           | Inr testloader \<Rightarrow>
               (let evaluated = batches key testloader;
                    (n_correct, n_total) = test_batches fw p evaluated 0 0
                in if n_total = 0 then (p, evaluated, Inl ZeroDivisionError)
                   else (p, evaluated, Inr (real n_correct / real n_total)))))"

section \<open>The driver (\<open>paramRayTune.py\<close>, \<open>main\<close>)\<close>




text \<open>The epochs in which a trial reported, in the order of the reports.\<close>

fun reported_epochs :: "event list \<Rightarrow> nat list" where
  "reported_epochs [] = []"
| "reported_epochs (Report epoch loss accuracy # tr) = epoch # reported_epochs tr"
| "reported_epochs (ev # tr) = reported_epochs tr"


section \<open>The result selector\<close>

record trial_result =
  trial_config :: config
  last_loss :: real
  last_accuracy :: real

datatype metric_name = Loss | Accuracy

datatype opt_mode = Min | Max

definition last_reported :: "metric_name \<Rightarrow> trial_result \<Rightarrow> real" where
  "last_reported m t = (case m of Loss \<Rightarrow> last_loss t | Accuracy \<Rightarrow> last_accuracy t)"

definition better :: "opt_mode \<Rightarrow> real \<Rightarrow> real \<Rightarrow> bool" where
  "better md a b = (case md of Min \<Rightarrow> a < b | Max \<Rightarrow> b < a)"

text \<open>
  Modelled from the spec: the selector \<open>best(result_set, metric, mode)\<close> of section 4.4,
  which \<open>main\<close> calls as \<open>result.get_best_trial("loss", "min", "last")\<close>; its code belongs
  to the tuning library and is not among the sources. The spec's words: select the trial
  with the best last reported metric value by the minimize/maximize convention, ties
  broken by the earliest trial in the order of submission. The result set is the list
  of trials in that order; a later trial replaces the candidate only when strictly
  better.
\<close>

fun best_from ::
  "opt_mode \<Rightarrow> (trial_result \<Rightarrow> real) \<Rightarrow> trial_result \<Rightarrow> trial_result list \<Rightarrow> trial_result" where
  "best_from md f b [] = b"
| "best_from md f b (t # ts) = best_from md f (if better md (f t) (f b) then t else b) ts"

definition best :: "trial_result list \<Rightarrow> metric_name \<Rightarrow> opt_mode \<Rightarrow> trial_result option" where
  "best result_set m md =
     (case result_set of
        [] \<Rightarrow> None
      | t # ts \<Rightarrow> Some (best_from md (last_reported m) t ts))"

section \<open>The fixed-configuration trainer (\<open>simpleFullyNN.py\<close>, \<open>check_accuracy\<close>)\<close>

text \<open>A module: its parameters and the flag that \<open>model.train()\<close> and \<open>model.eval()\<close> set.\<close>

record 'p module =
  params :: 'p
  training :: bool

text \<open>A loader whose dataset carries the attribute \<open>train\<close>, as the MNIST datasets do.\<close>

record 'a mnist_loader = "'a data_loader" +
  dataset_train :: bool

datatype pyvalue = PyNone | PyFloat real

datatype printed =
    Checking_training_data
  | Checking_test_data
  | Got nat nat real

text \<open>Lines 100-108: the loop over the loader, with \<open>num_correct\<close> and \<open>num_samples\<close>.\<close>

fun check_batches ::
  "('p, 'o, 'x) framework \<Rightarrow> 'p \<Rightarrow> 'x sample list list \<Rightarrow> nat \<Rightarrow> nat \<Rightarrow> nat \<times> nat" where
  "check_batches fw p [] num_correct num_samples = (num_correct, num_samples)"
| "check_batches fw p (b # bs) num_correct num_samples =
     check_batches fw p bs
       (num_correct + length (filter (correctly_predicted fw p) b)) (num_samples + length b)"

text \<open>
  \<open>check_accuracy(loader, model)\<close>: the model as the call leaves it, what was printed,
  and the returned value or the exception. The division inside the second \<open>print\<close>
  raises on an empty loader, before \<open>model.train()\<close> is reached. \<open>key\<close> is the
  generator's draw for this pass over the loader.
\<close>

definition check_accuracy ::
  "('p, 'o, 'x) framework \<Rightarrow> (nat \<Rightarrow> nat) \<Rightarrow> 'x sample mnist_loader \<Rightarrow> 'p module
     \<Rightarrow> 'p module \<times> printed list \<times> (error + pyvalue)" where
  "check_accuracy fw key loader model =
     (let out1 = [if dataset_train loader then Checking_training_data else Checking_test_data];
          model1 = model\<lparr>training := False\<rparr>;
          (num_correct, num_samples) =
             check_batches fw (params model1) (batches key loader) 0 0
      in if num_samples = 0 then (model1, out1, Inl ZeroDivisionError)
         else (model1\<lparr>training := True\<rparr>,
               out1 @ [Got num_correct num_samples
                         (real num_correct / real num_samples * 100)],
               Inr PyNone))"

section \<open>A small instance\<close>

text \<open>
  A framework over natural numbers, a dataset of five samples and an environment in
  which every write succeeds and the scheduler never stops a trial. The concrete runs
  below are evaluated on it.
\<close>

definition example_framework :: "(nat, nat, nat) framework" where
  "example_framework =
     \<lparr>fw_Net = (\<lambda>a b. 0),
      fw_SGD = (\<lambda>p r. 0),
      fw_predict = (\<lambda>p x. (x + p) mod 2),
      fw_criterion = (\<lambda>p b. real (length b) / 2),
      fw_step = (\<lambda>p s b. (p + 1, s + length b))\<rparr>"

definition example_data :: "nat sample list" where
  "example_data = [(0, 0), (1, 1), (2, 1), (3, 1), (4, 0)]"

definition example_environment :: "nat environment" where
  "example_environment =
     \<lparr>load_data = Inr (example_data, example_data),
      split_keys = (\<lambda>i. i),
      train_keys = (\<lambda>epoch i. i),
      val_keys = (\<lambda>epoch i. i),
      checkpoint_dir_of = (\<lambda>epoch. ''ckpt''),
      writable = (\<lambda>path. True),
      should_stop = (\<lambda>iteration loss accuracy. False)\<rparr>"

definition example_config :: config where
  "example_config = \<lparr>l1 = 4, l2 = 8, lr = 1 / 100, batch_size = 2\<rparr>"



definition always_stop_environment :: "nat environment" where
  "always_stop_environment =
     example_environment\<lparr>should_stop := (\<lambda>iteration loss accuracy. True)\<rparr>"

definition example_trainloader :: "nat sample data_loader" where
  "example_trainloader =
     \<lparr>dl_dataset = [(0, 0), (1, 1), (2, 1), (3, 1)], dl_batch_size = 2, dl_shuffle = True\<rparr>"

definition example_valloader :: "nat sample data_loader" where
  "example_valloader = \<lparr>dl_dataset = [(4, 0)], dl_batch_size = 2, dl_shuffle = True\<rparr>"

definition example_trial :: "(nat, nat) trial" where
  "example_trial = \<lparr>net = 0, opt = 0, files = Map.empty, trace = []\<rparr>"

definition ascending_keys :: "nat \<Rightarrow> nat" where
  "ascending_keys i = i"

definition descending_keys :: "nat \<Rightarrow> nat" where
  "descending_keys i = 5 - i"

section \<open>Notions used to state the properties\<close>

text \<open>The events of the training pass: optimizer steps and the printed running loss.\<close>

fun is_training_event :: "event \<Rightarrow> bool" where
  "is_training_event (Optimizer_step epoch i) = True"
| "is_training_event (Print_loss epoch i x) = True"
| "is_training_event ev = False"

text \<open>
  The two metrics as the specification words them: the mean of the per-batch losses,
  and the fraction of correctly predicted samples of a dataset.
\<close>

definition mean_loss :: "('p, 'o, 'x) framework \<Rightarrow> 'p \<Rightarrow> 'x sample list list \<Rightarrow> real" where
  "mean_loss fw p bs = sum_list (map (fw_criterion fw p) bs) / real (length bs)"

definition fraction_correct :: "('p, 'o, 'x) framework \<Rightarrow> 'p \<Rightarrow> 'x sample list \<Rightarrow> real" where
  "fraction_correct fw p ds =
     real (length (filter (correctly_predicted fw p) ds)) / real (length ds)"

text \<open>The file that the checkpoint of an epoch is saved to (lines 146-148).\<close>

definition checkpoint_path :: "'x environment \<Rightarrow> nat \<Rightarrow> string" where
  "checkpoint_path env epoch = path_join (checkpoint_dir_of env epoch) ''checkpoint''"

text \<open>
  Every checkpoint event of the trace names the file of its epoch, and that file holds
  a pickled pair of states.
\<close>

definition checkpoints_stored :: "'x environment \<Rightarrow> ('p, 'o) trial \<Rightarrow> bool" where
  "checkpoints_stored env st \<longleftrightarrow>
     (\<forall>epoch path. Checkpoint epoch path \<in> set (trace st) \<longrightarrow>
        path = checkpoint_path env epoch \<and> (\<exists>p s. files st path = Some (Pickled p s)))"


text \<open>Every report in a trace comes after a checkpoint of the same epoch.\<close>

definition checkpoint_before_report :: "event list \<Rightarrow> bool" where
  "checkpoint_before_report tr \<longleftrightarrow>
     (\<forall>i<length tr. \<forall>epoch loss accuracy. tr ! i = Report epoch loss accuracy \<longrightarrow>
        (\<exists>j<i. \<exists>path. tr ! j = Checkpoint epoch path))"

section \<open>Properties of the sampler\<close>

lemma randint_2_9_width: "2 ^ nat (randint 2 9 r) \<in> {4, 8, 16, 32, 64, 128, 256 :: int}"
proof -
  have "int r mod 7 \<in> {0..<7}" by simp
  then have "int r mod 7 \<in> {0, 1, 2, 3, 4, 5, 6}"
    by (simp add: atLeastLessThan_def) presburger
  then show ?thesis
    unfolding randint_def by (auto simp: nat_add_distrib)
qed

lemma choice_batch_size: "choice [2, 4, 8, 16 :: int] r \<in> {2, 4, 8, 16}"
proof -
  have "r mod 4 < 4" by simp
  then have "r mod 4 \<in> {0, 1, 2, 3}" by auto
  then show ?thesis unfolding choice_def by auto
qed

lemma loguniform_bounds:
  assumes "0 < lower" "lower \<le> upper" "0 \<le> u" "u \<le> 1"
  shows "lower \<le> loguniform lower upper u \<and> loguniform lower upper u \<le> upper"
proof -
  let ?a = "log 10 lower" and ?b = "log 10 upper"
  have ab: "?a \<le> ?b" using assms by simp
  have below: "?a \<le> uniform ?a ?b u"
    unfolding uniform_def using ab assms by simp
  have "(?b - ?a) * u \<le> (?b - ?a) * 1"
    using ab assms by (intro mult_left_mono) auto
  then have above: "uniform ?a ?b u \<le> ?b"
    unfolding uniform_def by simp
  have "10 powr ?a \<le> 10 powr uniform ?a ?b u" using below by simp
  moreover have "10 powr uniform ?a ?b u \<le> 10 powr ?b" using above by simp
  moreover have "10 powr ?a = lower" "10 powr ?b = upper" using assms by simp_all
  ultimately show ?thesis unfolding loguniform_def by simp
qed

text \<open>
  Claim C2. Every configuration the sampler produces lies in the declared search space:
  \<open>l1\<close> and \<open>l2\<close> are one of 4, 8, 16, 32, 64, 128, 256, \<open>lr\<close> lies between
  \<open>1e-4\<close> and \<open>1e-1\<close>, and \<open>batch_size\<close> is one of 2, 4, 8, 16. The only assumption is
  the contract of the unit-interval generator, \<open>0 \<le> u < 1\<close>.
\<close>

theorem sample_config_in_domain:
  assumes "0 \<le> unit_lr d" and "unit_lr d < 1"
  shows "l1 (sample_config d) \<in> {4, 8, 16, 32, 64, 128, 256}
       \<and> l2 (sample_config d) \<in> {4, 8, 16, 32, 64, 128, 256}
       \<and> 1 / 10 ^ 4 \<le> lr (sample_config d) \<and> lr (sample_config d) \<le> 1 / 10
       \<and> batch_size (sample_config d) \<in> {2, 4, 8, 16}"
proof -
  have "(1 / 10 ^ 4 :: real) \<le> loguniform (1 / 10 ^ 4) (1 / 10 ^ 1) (unit_lr d)
      \<and> loguniform (1 / 10 ^ 4) (1 / 10 ^ 1) (unit_lr d) \<le> 1 / 10 ^ 1"
    using assms by (intro loguniform_bounds) simp_all
  then show ?thesis
    using randint_2_9_width [of "raw_l1 d"] randint_2_9_width [of "raw_l2 d"]
      choice_batch_size [of "raw_batch_size d"]
    by (simp add: sample_config_def)
qed

theorem sample_config_in_domain_witness:
  "(0::real) \<le> 0 \<and> (0::real) < 1
   \<and> l1 (sample_config \<lparr>raw_l1 = 13, raw_l2 = 7, unit_lr = 0, raw_batch_size = 6\<rparr>) = 256
   \<and> l2 (sample_config \<lparr>raw_l1 = 13, raw_l2 = 7, unit_lr = 0, raw_batch_size = 6\<rparr>) = 4
   \<and> batch_size (sample_config \<lparr>raw_l1 = 13, raw_l2 = 7, unit_lr = 0, raw_batch_size = 6\<rparr>) = 8
   \<and> 1 / 10 ^ 4 \<le> lr (sample_config \<lparr>raw_l1 = 13, raw_l2 = 7, unit_lr = 0, raw_batch_size = 6\<rparr>)
   \<and> lr (sample_config \<lparr>raw_l1 = 13, raw_l2 = 7, unit_lr = 0, raw_batch_size = 6\<rparr>) \<le> 1 / 10"
  using sample_config_in_domain [of "\<lparr>raw_l1 = 13, raw_l2 = 7, unit_lr = 0, raw_batch_size = 6\<rparr>"]
  by (simp add: sample_config_def randint_def choice_def)

section \<open>Permutations, subsets and batches\<close>

lemma mset_randperm: "mset (randperm key n) = mset [0..<n]"
  by (simp add: randperm_def)

lemma length_randperm: "length (randperm key n) = n"
  by (simp add: randperm_def)

lemma mset_Subset_randperm: "mset (Subset ds (randperm key (length ds))) = mset ds"
proof -
  have "mset (Subset ds (randperm key (length ds)))
      = image_mset (\<lambda>i. ds ! i) (mset [0..<length ds])"
    unfolding Subset_def by (simp only: mset_map mset_randperm)
  also have "\<dots> = mset (map (\<lambda>i. ds ! i) [0..<length ds])" by simp
  also have "\<dots> = mset ds" by (simp only: map_nth)
  finally show ?thesis .
qed

lemma length_Subset: "length (Subset ds idx) = length idx"
  by (simp add: Subset_def)

lemma Subset_append: "Subset ds (xs @ ys) = Subset ds xs @ Subset ds ys"
  by (simp add: Subset_def)

lemma concat_chunks: "0 < n \<Longrightarrow> concat (chunks n xs) = xs"
proof (induction n xs rule: chunks.induct)
  case (1 n xs)
  then show ?case by (subst chunks.simps) auto
qed

lemma chunks_eq_Nil: "chunks n xs = [] \<longleftrightarrow> n = 0 \<or> xs = []"
  by (subst chunks.simps) simp

lemma chunks_Nil: "chunks n [] = []"
  by (simp add: chunks_eq_Nil)

lemma nat_floor_08: "nat \<lfloor>(8 / 10) * real n\<rfloor> = 4 * n div 5"
proof -
  have "(8 / 10) * real n = real (4 * n) / real 5" by simp
  then have "\<lfloor>(8 / 10) * real n\<rfloor> = \<lfloor>real (4 * n) / real 5\<rfloor>" by simp
  also have "\<dots> = int (4 * n div 5)" by (rule floor_divide_of_nat_eq)
  finally show ?thesis by simp
qed

lemma filter_count_mset:
  assumes "mset xs = mset ys"
  shows "length (filter P xs) = length (filter P ys)"
proof -
  have "mset (filter P xs) = mset (filter P ys)" using assms by simp
  then show ?thesis by (rule mset_eq_length)
qed

lemma train_val_split_Inr:
  "train_val_split key ds =
     Inr (Subset ds (take (4 * length ds div 5) (randperm key (length ds))),
          Subset ds (drop (4 * length ds div 5) (randperm key (length ds))))"
proof -
  have le: "4 * length ds div 5 \<le> length ds" by simp
  then show ?thesis
    by (simp add: train_val_split_def random_split_def Let_def length_randperm)
qed

section \<open>The train/validation split\<close>

text \<open>
  Claim C3, as the code has it. The split always succeeds; the training subset has
  \<open>floor(0.8 * |trainset|)\<close> samples and the validation subset the remainder; together
  the two subsets hold exactly the samples of the training set. Which samples go where
  is decided by the permutation drawn from the generator.
\<close>

theorem train_val_split_sizes:
  "\<exists>train_subset val_subset.
     train_val_split key trainset = Inr (train_subset, val_subset)
     \<and> length train_subset = nat \<lfloor>(8 / 10) * real (length trainset)\<rfloor>
     \<and> length val_subset = length trainset - length train_subset
     \<and> mset train_subset + mset val_subset = mset trainset"
proof -
  define a where "a = 4 * length trainset div 5"
  define idx where "idx = randperm key (length trainset)"
  define tr where "tr = Subset trainset (take a idx)"
  define va where "va = Subset trainset (drop a idx)"
  have le: "a \<le> length trainset" unfolding a_def by simp
  have len_idx: "length idx = length trainset" unfolding idx_def by (rule length_randperm)
  have "mset tr + mset va = mset (Subset trainset (take a idx @ drop a idx))"
    unfolding tr_def va_def by (simp only: Subset_append mset_append)
  also have "\<dots> = mset trainset"
    unfolding idx_def by (simp only: append_take_drop_id mset_Subset_randperm)
  finally have part: "mset tr + mset va = mset trainset" .
  have ltr: "length tr = a"
    unfolding tr_def using le len_idx by (simp add: length_Subset)
  have lva: "length va = length trainset - a"
    unfolding va_def using len_idx by (simp add: length_Subset)
  have split: "train_val_split key trainset = Inr (tr, va)"
    unfolding tr_def va_def a_def idx_def by (rule train_val_split_Inr)
  have fl: "nat \<lfloor>(8 / 10) * real (length trainset)\<rfloor> = a"
    unfolding a_def by (rule nat_floor_08)
  have "train_val_split key trainset = Inr (tr, va)
     \<and> length tr = nat \<lfloor>(8 / 10) * real (length trainset)\<rfloor>
     \<and> length va = length trainset - length tr
     \<and> mset tr + mset va = mset trainset"
    using split ltr lva part fl by (simp only: simp_thms)
  then show ?thesis by blast
qed

text \<open>
  Claim C3 as stated fails: two draws of the generator split the same five-sample
  dataset differently.
\<close>

theorem train_val_split_not_deterministic:
  "train_val_split ascending_keys [10, 20, 30, 40, 50 :: nat]
     \<noteq> train_val_split descending_keys [10, 20, 30, 40, 50 :: nat]"
  by code_simp

section \<open>The result selector\<close>

lemma best_from_mem: "best_from md f b ts \<in> set (b # ts)"
  by (induction ts arbitrary: b) auto

lemma best_from_Min_le:
  "f (best_from Min f b ts) \<le> f b \<and> (\<forall>u\<in>set ts. f (best_from Min f b ts) \<le> f u)"
proof (induction ts arbitrary: b)
  case Nil
  then show ?case by simp
next
  case (Cons t ts)
  let ?b' = "if better Min (f t) (f b) then t else b"
  have step: "f ?b' \<le> f b \<and> f ?b' \<le> f t" by (simp add: better_def)
  from Cons.IH [of ?b'] step show ?case by force
qed

text \<open>
  Claim C4. On a result set that is not empty, the selector under metric loss and mode
  min returns a trial of the set whose last reported loss is at most that of every
  trial of the set; of two trials with losses 0.5 and 0.3 it returns the one with 0.3,
  in either order of submission.
\<close>

theorem best_selects_min_loss:
  "(result_set \<noteq> [] \<longrightarrow>
      (\<exists>t. best result_set Loss Min = Some t \<and> t \<in> set result_set
           \<and> (\<forall>u\<in>set result_set. last_loss t \<le> last_loss u)))
   \<and> (last_loss a = 5 / 10 \<and> last_loss b = 3 / 10 \<longrightarrow>
        best [a, b] Loss Min = Some b \<and> best [b, a] Loss Min = Some b)"
proof (intro conjI impI)
  assume "result_set \<noteq> []"
  then obtain t ts where rs: "result_set = t # ts" by (cases result_set) auto
  let ?w = "best_from Min (last_reported Loss) t ts"
  have "best result_set Loss Min = Some ?w" by (simp add: rs best_def)
  moreover have "?w \<in> set result_set" using best_from_mem [of Min _ t ts] by (simp only: rs)
  moreover have "\<forall>u\<in>set result_set. last_loss ?w \<le> last_loss u"
    using best_from_Min_le [of "last_reported Loss" t ts] by (simp add: rs last_reported_def)
  ultimately show "\<exists>t. best result_set Loss Min = Some t \<and> t \<in> set result_set
           \<and> (\<forall>u\<in>set result_set. last_loss t \<le> last_loss u)" by blast
next
  assume "last_loss a = 5 / 10 \<and> last_loss b = 3 / 10"
  then show "best [a, b] Loss Min = Some b" by (simp add: best_def better_def last_reported_def)
next
  assume "last_loss a = 5 / 10 \<and> last_loss b = 3 / 10"
  then show "best [b, a] Loss Min = Some b" by (simp add: best_def better_def last_reported_def)
qed


theorem best_selects_min_loss_witness:
  "[\<lparr>trial_config = \<lparr>l1 = 4, l2 = 8, lr = 1 / 100, batch_size = 2\<rparr>,
      last_loss = 5 / 10, last_accuracy = 4 / 10\<rparr>,
    \<lparr>trial_config = \<lparr>l1 = 16, l2 = 4, lr = 1 / 1000, batch_size = 4\<rparr>,
      last_loss = 3 / 10, last_accuracy = 6 / 10\<rparr>] \<noteq> []
   \<and> best [\<lparr>trial_config = \<lparr>l1 = 4, l2 = 8, lr = 1 / 100, batch_size = 2\<rparr>,
             last_loss = 5 / 10, last_accuracy = 4 / 10\<rparr>,
           \<lparr>trial_config = \<lparr>l1 = 16, l2 = 4, lr = 1 / 1000, batch_size = 4\<rparr>,
             last_loss = 3 / 10, last_accuracy = 6 / 10\<rparr>] Loss Min
       = Some \<lparr>trial_config = \<lparr>l1 = 16, l2 = 4, lr = 1 / 1000, batch_size = 4\<rparr>,
               last_loss = 3 / 10, last_accuracy = 6 / 10\<rparr>"
  using best_selects_min_loss
    [of "[\<lparr>trial_config = \<lparr>l1 = 4, l2 = 8, lr = 1 / 100, batch_size = 2\<rparr>,
            last_loss = 5 / 10, last_accuracy = 4 / 10\<rparr>,
          \<lparr>trial_config = \<lparr>l1 = 16, l2 = 4, lr = 1 / 1000, batch_size = 4\<rparr>,
            last_loss = 3 / 10, last_accuracy = 6 / 10\<rparr>]"
        "\<lparr>trial_config = \<lparr>l1 = 4, l2 = 8, lr = 1 / 100, batch_size = 2\<rparr>,
            last_loss = 5 / 10, last_accuracy = 4 / 10\<rparr>"
        "\<lparr>trial_config = \<lparr>l1 = 16, l2 = 4, lr = 1 / 1000, batch_size = 4\<rparr>,
            last_loss = 3 / 10, last_accuracy = 6 / 10\<rparr>"]
  by simp

section \<open>Resuming from a checkpoint\<close>

text \<open>
  Claim C7. When \<open>train_cifar\<close> is called with a checkpoint directory (a string that is
  not empty) and the checkpoint file in it is missing or cannot be unpickled, the trial
  ends with the error of \<open>torch.load\<close>, before any optimizer step, checkpoint or report:
  the trace is empty and the file system is untouched. It does not go on from the
  freshly initialised network.
\<close>

theorem resume_fails_fast:
  assumes "d \<noteq> []"
    and "fs (path_join d ''checkpoint'') = None \<or> fs (path_join d ''checkpoint'') = Some Garbage"
  shows "fst (train_cifar fw env cfg (Some d) fs)
           = Failed (if fs (path_join d ''checkpoint'') = None then FileNotFoundError
                     else UnpicklingError)
       \<and> trace (snd (train_cifar fw env cfg (Some d) fs)) = []
       \<and> files (snd (train_cifar fw env cfg (Some d) fs)) = fs"
  using assms
  by (auto simp: train_cifar_def resume_def torch_load_def Let_def)

theorem resume_fails_fast_witness:
  "''run'' \<noteq> []
   \<and> train_cifar example_framework example_environment example_config (Some ''run'') Map.empty
       = (Failed FileNotFoundError, \<lparr>net = 0, opt = 0, files = Map.empty, trace = []\<rparr>)"
  using resume_fails_fast [of "''run''" Map.empty example_framework example_environment example_config]
  by (simp add: train_cifar_def resume_def torch_load_def Let_def example_framework_def example_config_def)

section \<open>Test-set accuracy\<close>

lemma filter_correct_bounds:
  "xs \<noteq> [] \<Longrightarrow> 0 \<le> real (length (filter P xs)) / real (length xs)
     \<and> real (length (filter P xs)) / real (length xs) \<le> 1"
proof -
  assume "xs \<noteq> []"
  then have pos: "0 < real (length xs)" by simp
  have "real (length (filter P xs)) \<le> real (length xs)" by simp
  then show ?thesis using pos by (simp add: divide_le_eq_1)
qed

lemma test_batches_count:
  "test_batches fw p bs c t =
     (c + length (filter (correctly_predicted fw p) (concat bs)), t + length (concat bs))"
  by (induction bs arbitrary: c t) auto

lemma test_accuracy_evaluated:
  "test_accuracy fw key (Inr (trainset, testset)) p =
     (p, chunks 4 testset,
      if testset = [] then Inl ZeroDivisionError
      else Inr (real (length (filter (correctly_predicted fw p) testset))
                / real (length testset)))"
proof (cases "testset = []")
  case True
  then show ?thesis
    by (simp add: test_accuracy_def DataLoader_def batches_def chunks_Nil)
next
  case False
  have c: "concat (chunks 4 testset) = testset" by (simp add: concat_chunks)
  have tb: "test_batches fw p (chunks 4 testset) 0 0
      = (length (filter (correctly_predicted fw p) testset), length testset)"
    by (simp only: test_batches_count c add_0)
  show ?thesis using False
    by (simp add: test_accuracy_def DataLoader_def batches_def Let_def tb)
qed

text \<open>
  Claim C9. \<open>test_accuracy\<close> hands back the network it was given, whatever the outcome.
  Whatever the generator would draw, the batches it runs the network on are the test
  set cut into consecutive batches of four, so the samples are visited in the test
  set's own order. On a test set that is not empty the result is the number of
  correctly predicted test samples divided by the number of test samples, a value
  between 0 and 1.
\<close>

theorem test_accuracy_ratio:
  "fst (test_accuracy fw key ld p) = p
   \<and> (ld = Inr (trainset, testset) \<longrightarrow>
        fst (snd (test_accuracy fw key ld p)) = chunks 4 testset
        \<and> concat (fst (snd (test_accuracy fw key ld p))) = testset)
   \<and> (ld = Inr (trainset, testset) \<and> testset \<noteq> [] \<longrightarrow>
        snd (snd (test_accuracy fw key ld p))
          = Inr (real (length (filter (correctly_predicted fw p) testset)) / real (length testset))
        \<and> 0 \<le> real (length (filter (correctly_predicted fw p) testset)) / real (length testset)
        \<and> real (length (filter (correctly_predicted fw p) testset)) / real (length testset) \<le> 1)"
proof (intro conjI impI)
  show "fst (test_accuracy fw key ld p) = p"
    by (auto simp: test_accuracy_def DataLoader_def Let_def split: sum.splits prod.splits)
next
  assume "ld = Inr (trainset, testset)"
  then show "fst (snd (test_accuracy fw key ld p)) = chunks 4 testset"
    by (simp add: test_accuracy_evaluated)
next
  assume "ld = Inr (trainset, testset)"
  then show "concat (fst (snd (test_accuracy fw key ld p))) = testset"
    by (simp add: test_accuracy_evaluated concat_chunks)
next
  assume a: "ld = Inr (trainset, testset) \<and> testset \<noteq> []"
  then show "snd (snd (test_accuracy fw key ld p))
      = Inr (real (length (filter (correctly_predicted fw p) testset)) / real (length testset))"
    by (simp add: test_accuracy_evaluated)
next
  assume a: "ld = Inr (trainset, testset) \<and> testset \<noteq> []"
  then show "0 \<le> real (length (filter (correctly_predicted fw p) testset)) / real (length testset)"
    using filter_correct_bounds [of testset] by simp
next
  assume a: "ld = Inr (trainset, testset) \<and> testset \<noteq> []"
  then show "real (length (filter (correctly_predicted fw p) testset)) / real (length testset) \<le> 1"
    using filter_correct_bounds [of testset] by simp
qed

theorem test_accuracy_ratio_witness:
  "example_data \<noteq> []
   \<and> test_accuracy example_framework descending_keys (Inr (example_data, example_data)) 0
       = (0, [[(0, 0), (1, 1), (2, 1), (3, 1)], [(4, 0)]], Inr (4 / 5))"
proof -
  have ne: "example_data \<noteq> []" by (simp add: example_data_def)
  have cnt: "length (filter (correctly_predicted example_framework 0) example_data) = 4"
    by (simp add: example_data_def example_framework_def correctly_predicted_def)
  have len: "length example_data = 5" by (simp add: example_data_def)
  have ch: "chunks 4 example_data = [[(0, 0), (1, 1), (2, 1), (3, 1)], [(4, 0)]]"
    by code_simp
  from test_accuracy_ratio [of example_framework descending_keys
      "Inr (example_data, example_data)" 0 example_data example_data] ne
  have "fst (test_accuracy example_framework descending_keys
          (Inr (example_data, example_data)) 0) = 0"
    and "fst (snd (test_accuracy example_framework descending_keys
          (Inr (example_data, example_data)) 0)) = chunks 4 example_data"
    and "snd (snd (test_accuracy example_framework descending_keys
          (Inr (example_data, example_data)) 0))
           = Inr (real (length (filter (correctly_predicted example_framework 0) example_data))
                  / real (length example_data))"
    by simp_all
  then show ?thesis using ne by (simp add: prod_eq_iff cnt len ch)
qed

section \<open>The accuracy check of the fixed-configuration trainer\<close>

lemma check_batches_count:
  "check_batches fw p bs c t =
     (c + length (filter (correctly_predicted fw p) (concat bs)), t + length (concat bs))"
  by (induction bs arbitrary: c t) auto

lemma concat_batches_length:
  "0 < dl_batch_size dl \<Longrightarrow> length (concat (batches key dl)) = length (dl_dataset dl)"
  by (simp add: batches_def concat_chunks length_Subset length_randperm)


text \<open>
  What \<open>check_accuracy\<close> does on every loader: it never changes the parameters;
  whenever it returns, it returns \<open>None\<close> with the model in training mode, whatever the
  mode before and whichever dataset the loader reads; and it returns whenever the
  loader yields at least one sample.
\<close>

lemma check_accuracy_result:
  "params (fst (check_accuracy fw key loader model)) = params model
   \<and> (\<forall>v. snd (snd (check_accuracy fw key loader model)) = Inr v \<longrightarrow>
          v = PyNone \<and> training (fst (check_accuracy fw key loader model)))
   \<and> (dl_dataset loader \<noteq> [] \<and> 0 < dl_batch_size loader \<longrightarrow>
        snd (snd (check_accuracy fw key loader model)) = Inr PyNone
        \<and> training (fst (check_accuracy fw key loader model)))"
proof (intro conjI impI allI)
  show "params (fst (check_accuracy fw key loader model)) = params model"
    by (simp add: check_accuracy_def Let_def check_batches_count)
next
  fix v assume "snd (snd (check_accuracy fw key loader model)) = Inr v"
  then show "v = PyNone" "training (fst (check_accuracy fw key loader model))"
    by (auto simp: check_accuracy_def Let_def check_batches_count split: if_splits)
next
  assume a: "dl_dataset loader \<noteq> [] \<and> 0 < dl_batch_size loader"
  then have "length (concat (batches key loader)) \<noteq> 0"
    by (simp add: concat_batches_length)
  then show "snd (snd (check_accuracy fw key loader model)) = Inr PyNone"
    "training (fst (check_accuracy fw key loader model))"
    by (simp_all add: check_accuracy_def Let_def check_batches_count)
qed


section \<open>The training pass\<close>

lemma train_batches_files: "files (train_batches fw epoch ibs rl es st) = files st"
  by (induction fw epoch ibs rl es st rule: train_batches.induct)
     (simp_all add: Let_def split: prod.splits)

lemma train_batches_trace:
  "\<exists>evs. trace (train_batches fw epoch ibs rl es st) = trace st @ evs
         \<and> (\<forall>ev\<in>set evs. is_training_event ev)"
proof (induction fw epoch ibs rl es st rule: train_batches.induct)
  case (1 fw epoch running_loss epoch_steps st)
  then show ?case by simp
next
  case (2 fw epoch i b rest running_loss epoch_steps st)
  obtain p s where ps: "fw_step fw (net st) (opt st) b = (p, s)" by (cases "fw_step fw (net st) (opt st) b")
  show ?case
  proof (cases "i mod 2000 = 1999")
    case True
    from "2.IH"(1) [OF refl ps [symmetric] refl refl refl refl True]
    obtain evs where "trace (train_batches fw epoch ((i, b) # rest) running_loss epoch_steps st)
        = trace st @ ([Optimizer_step epoch i,
             Print_loss (epoch + 1) (i + 1)
               ((running_loss + fw_criterion fw (net st) b) / real (epoch_steps + 1))] @ evs)"
      and "\<forall>ev\<in>set evs. is_training_event ev"
      using ps True by (auto simp: Let_def)
    then show ?thesis by (intro exI [of _ "[Optimizer_step epoch i,
             Print_loss (epoch + 1) (i + 1)
               ((running_loss + fw_criterion fw (net st) b) / real (epoch_steps + 1))] @ evs"]) simp
  next
    case False
    from "2.IH"(2) [OF refl ps [symmetric] refl refl refl refl False]
    obtain evs where "trace (train_batches fw epoch ((i, b) # rest) running_loss epoch_steps st)
        = trace st @ ([Optimizer_step epoch i] @ evs)"
      and "\<forall>ev\<in>set evs. is_training_event ev"
      using ps False by (auto simp: Let_def)
    then show ?thesis by (intro exI [of _ "[Optimizer_step epoch i] @ evs"]) simp
  qed
qed

lemma train_pass_files: "files (train_pass fw env trainloader epoch st) = files st"
  by (simp add: train_pass_def train_batches_files)

lemma train_pass_trace:
  "\<exists>evs. trace (train_pass fw env trainloader epoch st) = trace st @ evs
         \<and> (\<forall>ev\<in>set evs. is_training_event ev)"
  unfolding train_pass_def by (rule train_batches_trace)


section \<open>The validation pass\<close>

lemma validate_val_steps: "val_steps (validate fw p bs acc) = val_steps acc + length bs"
  by (induction bs arbitrary: acc) simp_all

lemma validate_total: "total (validate fw p bs acc) = total acc + length (concat bs)"
  by (induction bs arbitrary: acc) simp_all

lemma validate_correct:
  "correct (validate fw p bs acc)
     = correct acc + length (filter (correctly_predicted fw p) (concat bs))"
  by (induction bs arbitrary: acc) simp_all

lemma validate_val_loss:
  "val_loss (validate fw p bs acc) = val_loss acc + sum_list (map (fw_criterion fw p) bs)"
  by (induction bs arbitrary: acc) simp_all

lemma mset_concat_batches:
  "0 < dl_batch_size dl \<Longrightarrow> mset (concat (batches key dl)) = mset (dl_dataset dl)"
  by (simp add: batches_def concat_chunks mset_Subset_randperm)

lemma Subset_randperm_eq_Nil: "Subset ds (randperm key (length ds)) = [] \<longleftrightarrow> ds = []"
proof -
  have "length (Subset ds (randperm key (length ds))) = length ds"
    by (simp add: length_Subset length_randperm)
  then show ?thesis by (metis length_0_conv)
qed

lemma batches_eq_Nil: "batches key dl = [] \<longleftrightarrow> dl_batch_size dl = 0 \<or> dl_dataset dl = []"
  by (simp add: batches_def chunks_eq_Nil Subset_randperm_eq_Nil)

lemma report_metrics_Inr:
  assumes "report_metrics (validate fw p (batches key dl)
             \<lparr>val_loss = 0, val_steps = 0, total = 0, correct = 0\<rparr>) = Inr (loss, accuracy)"
  shows "dl_dataset dl \<noteq> []" and "0 < dl_batch_size dl"
    and "loss = mean_loss fw p (batches key dl)"
    and "accuracy = fraction_correct fw p (dl_dataset dl)"
proof -
  let ?m = "validate fw p (batches key dl) \<lparr>val_loss = 0, val_steps = 0, total = 0, correct = 0\<rparr>"
  from assms have steps: "val_steps ?m \<noteq> 0"
    by (auto simp: report_metrics_def split: if_splits)
  then have "batches key dl \<noteq> []" by (simp add: validate_val_steps)
  then show ne: "dl_dataset dl \<noteq> []" and pos: "0 < dl_batch_size dl"
    by (simp_all add: batches_eq_Nil)
  from assms steps have l: "loss = val_loss ?m / real (val_steps ?m)"
    and a: "accuracy = real (correct ?m) / real (total ?m)"
    by (auto simp: report_metrics_def split: if_splits)
  from l show "loss = mean_loss fw p (batches key dl)"
    by (simp add: mean_loss_def validate_val_loss validate_val_steps)
  have cnt: "length (filter (correctly_predicted fw p) (concat (batches key dl)))
           = length (filter (correctly_predicted fw p) (dl_dataset dl))"
    using pos by (intro filter_count_mset mset_concat_batches)
  from a show "accuracy = fraction_correct fw p (dl_dataset dl)"
    using pos by (simp add: fraction_correct_def validate_correct validate_total cnt
        concat_batches_length)
qed


lemma fraction_correct_bounds:
  "ds \<noteq> [] \<Longrightarrow> 0 \<le> fraction_correct fw p ds \<and> fraction_correct fw p ds \<le> 1"
  unfolding fraction_correct_def by (rule filter_correct_bounds)

section \<open>One epoch\<close>

lemma run_epoch_reported:
  assumes "run_epoch fw env trainloader valloader epoch st = (out, st')"
    and "out = None \<or> out = Some Stopped"
  shows "\<exists>loss accuracy.
      report_metrics (snd (validation_pass fw env valloader epoch
          (train_pass fw env trainloader epoch st))) = Inr (loss, accuracy)
      \<and> writable env (path_join (checkpoint_dir_of env epoch) ''checkpoint'')
      \<and> out = (if should_stop env (epoch + 1) loss accuracy then Some Stopped else None)
      \<and> st' = (train_pass fw env trainloader epoch st)
           \<lparr>files := (files (train_pass fw env trainloader epoch st))
               (path_join (checkpoint_dir_of env epoch) ''checkpoint'' \<mapsto>
                  Pickled (net (train_pass fw env trainloader epoch st))
                          (opt (train_pass fw env trainloader epoch st))),
            trace := trace (train_pass fw env trainloader epoch st) @
               [Checkpoint epoch (path_join (checkpoint_dir_of env epoch) ''checkpoint''),
                Report epoch loss accuracy]\<rparr>"
proof -
  let ?st1 = "train_pass fw env trainloader epoch st"
  let ?path = "path_join (checkpoint_dir_of env epoch) ''checkpoint''"
  let ?m = "snd (validation_pass fw env valloader epoch ?st1)"
  have w: "writable env ?path"
  proof (rule ccontr)
    assume "\<not> writable env ?path"
    then have "out = Some (Failed OSError)"
      using assms(1) by (simp add: run_epoch_def validation_pass_def save_checkpoint_def Let_def)
    then show False using assms(2) by simp
  qed
  show ?thesis
  proof (cases "report_metrics ?m")
    case (Inl e)
    then have "out = Some (Failed e)"
      using assms(1) w
      by (simp add: run_epoch_def validation_pass_def save_checkpoint_def Let_def)
    then show ?thesis using assms(2) by simp
  next
    case (Inr la)
    obtain loss accuracy where la: "la = (loss, accuracy)" by (cases la)
    from assms(1) w Inr la
    have "out = (if should_stop env (epoch + 1) loss accuracy then Some Stopped else None)"
      and "st' = ?st1\<lparr>files := (files ?st1)(?path \<mapsto> Pickled (net ?st1) (opt ?st1)),
            trace := trace ?st1 @ [Checkpoint epoch ?path, Report epoch loss accuracy]\<rparr>"
      by (auto simp: run_epoch_def validation_pass_def save_checkpoint_def Let_def
          split: if_splits)
    then show ?thesis using Inr la w by blast
  qed
qed

lemma example_epoch_continues:
  "fst (run_epoch example_framework example_environment example_trainloader
      example_valloader 0 example_trial) = None"
  by code_simp

lemma example_epoch_net:
  "net (train_pass example_framework example_environment example_trainloader 0 example_trial) = 2"
  by code_simp

text \<open>
  Claim C5. In an epoch that reaches its report, the validation pass hands back the
  trial as the training pass left it, and so do the checkpoint and the report: the
  network and the optimizer are those of the end of the training pass, and the trace
  gains no optimizer step, only the checkpoint and the report. The reported loss is the
  sum of the per-batch validation losses divided by the number of validation batches,
  and the reported accuracy is the number of correctly predicted validation samples
  divided by the number of validation samples, a value between 0 and 1.
\<close>

theorem validation_metrics:
  assumes "run_epoch fw env trainloader valloader epoch st = (out, st')"
    and "out = None \<or> out = Some Stopped"
  shows "fst (validation_pass fw env valloader epoch (train_pass fw env trainloader epoch st))
           = train_pass fw env trainloader epoch st
       \<and> net st' = net (train_pass fw env trainloader epoch st)
       \<and> opt st' = opt (train_pass fw env trainloader epoch st)
       \<and> (\<exists>path. trace st' = trace (train_pass fw env trainloader epoch st) @
             [Checkpoint epoch path,
              Report epoch
                (mean_loss fw (net st') (batches (val_keys env epoch) valloader))
                (fraction_correct fw (net st') (dl_dataset valloader))])
       \<and> 0 \<le> fraction_correct fw (net st') (dl_dataset valloader)
       \<and> fraction_correct fw (net st') (dl_dataset valloader) \<le> 1"
proof -
  let ?st1 = "train_pass fw env trainloader epoch st"
  from run_epoch_reported [OF assms] obtain loss accuracy where
    rm: "report_metrics (snd (validation_pass fw env valloader epoch ?st1)) = Inr (loss, accuracy)"
    and st': "st' = ?st1
           \<lparr>files := (files ?st1)
               (path_join (checkpoint_dir_of env epoch) ''checkpoint'' \<mapsto>
                  Pickled (net ?st1) (opt ?st1)),
            trace := trace ?st1 @
               [Checkpoint epoch (path_join (checkpoint_dir_of env epoch) ''checkpoint''),
                Report epoch loss accuracy]\<rparr>"
    by blast
  have n: "net st' = net ?st1" and o: "opt st' = opt ?st1" by (simp_all add: st')
  from rm have rm': "report_metrics (validate fw (net ?st1) (batches (val_keys env epoch) valloader)
             \<lparr>val_loss = 0, val_steps = 0, total = 0, correct = 0\<rparr>) = Inr (loss, accuracy)"
    by (simp add: validation_pass_def)
  note facts = report_metrics_Inr [OF rm']
  have tr: "trace st' = trace ?st1 @
             [Checkpoint epoch (path_join (checkpoint_dir_of env epoch) ''checkpoint''),
              Report epoch
                (mean_loss fw (net st') (batches (val_keys env epoch) valloader))
                (fraction_correct fw (net st') (dl_dataset valloader))]"
    using facts(3,4) by (simp add: st')
  have fr: "fst (validation_pass fw env valloader epoch ?st1) = ?st1"
    by (simp add: validation_pass_def)
  from fr n o tr fraction_correct_bounds [OF facts(1), of fw "net st'"]
  show ?thesis by blast
qed

theorem validation_metrics_witness:
  "fst (run_epoch example_framework example_environment example_trainloader
      example_valloader 0 example_trial) = None
   \<and> net (snd (run_epoch example_framework example_environment example_trainloader
        example_valloader 0 example_trial)) = 2
   \<and> (\<exists>path. trace (snd (run_epoch example_framework example_environment example_trainloader
        example_valloader 0 example_trial))
        = trace (train_pass example_framework example_environment example_trainloader 0
            example_trial)
          @ [Checkpoint 0 path, Report 0 (1 / 2) 1])"
proof -
  let ?r = "run_epoch example_framework example_environment example_trainloader
      example_valloader 0 example_trial"
  have r: "?r = (fst ?r, snd ?r)" by simp
  have out: "fst ?r = None \<or> fst ?r = Some Stopped" by (simp add: example_epoch_continues)
  note vm = validation_metrics [OF r out]
  from vm have n: "net (snd ?r) = 2" by (simp add: example_epoch_net)
  have ml: "mean_loss example_framework 2
              (batches (val_keys example_environment 0) example_valloader) = 1 / 2"
    by code_simp
  have fc: "fraction_correct example_framework 2 (dl_dataset example_valloader) = 1"
    by code_simp
  from vm show ?thesis
    unfolding n ml fc using example_epoch_continues by blast
qed

section \<open>The order of checkpoints and reports\<close>

lemma reported_epochs_append:
  "reported_epochs (xs @ ys) = reported_epochs xs @ reported_epochs ys"
  by (induction xs rule: reported_epochs.induct) simp_all

lemma reported_epochs_training:
  "\<forall>ev\<in>set evs. is_training_event ev \<Longrightarrow> reported_epochs evs = []"
  by (induction evs rule: reported_epochs.induct) simp_all

lemma cbr_Nil: "checkpoint_before_report []"
  by (simp add: checkpoint_before_report_def)

lemma cbr_append_other:
  assumes "checkpoint_before_report tr"
    and "\<forall>ev\<in>set evs. \<forall>epoch loss accuracy. ev \<noteq> Report epoch loss accuracy"
  shows "checkpoint_before_report (tr @ evs)"
  unfolding checkpoint_before_report_def
proof (intro allI impI)
  fix i epoch loss accuracy
  assume i: "i < length (tr @ evs)" and r: "(tr @ evs) ! i = Report epoch loss accuracy"
  show "\<exists>j<i. \<exists>path. (tr @ evs) ! j = Checkpoint epoch path"
  proof (cases "i < length tr")
    case True
    with r have "tr ! i = Report epoch loss accuracy" by (simp add: nth_append)
    with assms(1) True obtain j path where "j < i" "tr ! j = Checkpoint epoch path"
      unfolding checkpoint_before_report_def by blast
    with True show ?thesis by (intro exI [of _ j]) (simp add: nth_append)
  next
    case False
    with i r have "evs ! (i - length tr) = Report epoch loss accuracy" "i - length tr < length evs"
      by (simp_all add: nth_append)
    then have "Report epoch loss accuracy \<in> set evs" by (metis nth_mem)
    with assms(2) show ?thesis by blast
  qed
qed

lemma cbr_append_report:
  assumes "checkpoint_before_report tr" and "Checkpoint epoch path \<in> set tr"
  shows "checkpoint_before_report (tr @ [Report epoch loss accuracy])"
  unfolding checkpoint_before_report_def
proof (intro allI impI)
  fix i e l a
  assume i: "i < length (tr @ [Report epoch loss accuracy])"
    and r: "(tr @ [Report epoch loss accuracy]) ! i = Report e l a"
  show "\<exists>j<i. \<exists>p. (tr @ [Report epoch loss accuracy]) ! j = Checkpoint e p"
  proof (cases "i < length tr")
    case True
    with r have "tr ! i = Report e l a" by (simp add: nth_append)
    with assms(1) True obtain j p where "j < i" "tr ! j = Checkpoint e p"
      unfolding checkpoint_before_report_def by blast
    with True show ?thesis by (intro exI [of _ j]) (simp add: nth_append)
  next
    case False
    with i have ieq: "i = length tr" by simp
    with r have e: "e = epoch" by simp
    from assms(2) obtain j where "j < length tr" "tr ! j = Checkpoint epoch path"
      by (auto simp: in_set_conv_nth)
    then show ?thesis using ieq e by (intro exI [of _ j]) (simp add: nth_append)
  qed
qed

lemma training_event_not_report:
  "is_training_event ev \<Longrightarrow> ev \<noteq> Report epoch loss accuracy"
  by (cases ev) simp_all

text \<open>What one epoch adds to the trace, by outcome.\<close>

lemma run_epoch_not_Finished:
  "run_epoch fw env trainloader valloader epoch st = (out, st') \<Longrightarrow> out \<noteq> Some Finished"
  by (auto simp: run_epoch_def validation_pass_def save_checkpoint_def Let_def
      split: sum.splits prod.splits if_splits)

lemma run_epoch_trace_reported:
  assumes "run_epoch fw env trainloader valloader epoch st = (out, st')"
    and "out = None \<or> out = Some Stopped"
  shows "\<exists>evs path loss accuracy.
           trace st' = trace st @ evs @ [Checkpoint epoch path, Report epoch loss accuracy]
           \<and> (\<forall>ev\<in>set evs. is_training_event ev)
           \<and> out = (if should_stop env (epoch + 1) loss accuracy then Some Stopped else None)"
proof -
  let ?st1 = "train_pass fw env trainloader epoch st"
  obtain evs where evs: "trace ?st1 = trace st @ evs" "\<forall>ev\<in>set evs. is_training_event ev"
    using train_pass_trace by blast
  from run_epoch_reported [OF assms] obtain loss accuracy where
    "out = (if should_stop env (epoch + 1) loss accuracy then Some Stopped else None)"
    "trace st' = trace ?st1 @
        [Checkpoint epoch (path_join (checkpoint_dir_of env epoch) ''checkpoint''),
         Report epoch loss accuracy]"
    by auto
  with evs have "trace st' = trace st @ evs @
        [Checkpoint epoch (path_join (checkpoint_dir_of env epoch) ''checkpoint''),
         Report epoch loss accuracy]
      \<and> (\<forall>ev\<in>set evs. is_training_event ev)
      \<and> out = (if should_stop env (epoch + 1) loss accuracy then Some Stopped else None)"
    by simp
  then show ?thesis by blast
qed

lemma run_epoch_trace_failed:
  assumes "run_epoch fw env trainloader valloader epoch st = (out, st')"
    and "\<not> (out = None \<or> out = Some Stopped)"
  shows "\<exists>evs tail. trace st' = trace st @ evs @ tail
           \<and> (\<forall>ev\<in>set evs. is_training_event ev)
           \<and> (tail = [] \<or> (\<exists>path. tail = [Checkpoint epoch path]))"
proof -
  let ?st1 = "train_pass fw env trainloader epoch st"
  let ?path = "path_join (checkpoint_dir_of env epoch) ''checkpoint''"
  obtain evs where evs: "trace ?st1 = trace st @ evs" "\<forall>ev\<in>set evs. is_training_event ev"
    using train_pass_trace by blast
  from assms have "trace st' = trace ?st1 @ [] \<or> trace st' = trace ?st1 @ [Checkpoint epoch ?path]"
    by (auto simp: run_epoch_def validation_pass_def save_checkpoint_def Let_def
        split: sum.splits prod.splits if_splits)
  then have "\<exists>tail. trace st' = trace ?st1 @ tail
      \<and> (tail = [] \<or> (\<exists>path. tail = [Checkpoint epoch path]))"
    by blast
  then obtain tail where "trace st' = trace ?st1 @ tail"
    "tail = [] \<or> (\<exists>path. tail = [Checkpoint epoch path])" by blast
  with evs have "trace st' = trace st @ evs @ tail
           \<and> (\<forall>ev\<in>set evs. is_training_event ev)
           \<and> (tail = [] \<or> (\<exists>path. tail = [Checkpoint epoch path]))" by simp
  then show ?thesis by blast
qed

lemma training_events_no_report:
  "\<forall>ev\<in>set evs. is_training_event ev
     \<Longrightarrow> \<forall>ev\<in>set evs. \<forall>epoch loss accuracy. ev \<noteq> Report epoch loss accuracy"
  using training_event_not_report by blast

lemma run_epoch_cbr:
  assumes "run_epoch fw env trainloader valloader epoch st = (out, st')"
    and "checkpoint_before_report (trace st)"
  shows "checkpoint_before_report (trace st')"
proof (cases "out = None \<or> out = Some Stopped")
  case True
  from run_epoch_trace_reported [OF assms(1) True] obtain evs path loss accuracy where
    tr: "trace st' = trace st @ evs @ [Checkpoint epoch path, Report epoch loss accuracy]"
    and evs: "\<forall>ev\<in>set evs. is_training_event ev" by blast
  have c1: "checkpoint_before_report (trace st @ evs)"
    by (rule cbr_append_other [OF assms(2) training_events_no_report [OF evs]])
  have "checkpoint_before_report ((trace st @ evs) @ [Checkpoint epoch path])"
    using c1 by (rule cbr_append_other) simp
  then have "checkpoint_before_report
      (((trace st @ evs) @ [Checkpoint epoch path]) @ [Report epoch loss accuracy])"
    by (rule cbr_append_report [of _ epoch path]) simp
  then show ?thesis by (simp add: tr)
next
  case False
  from run_epoch_trace_failed [OF assms(1) False] obtain evs tail where
    tr: "trace st' = trace st @ evs @ tail"
    and evs: "\<forall>ev\<in>set evs. is_training_event ev"
    and tail: "tail = [] \<or> (\<exists>path. tail = [Checkpoint epoch path])" by blast
  have c1: "checkpoint_before_report (trace st @ evs)"
    by (rule cbr_append_other [OF assms(2) training_events_no_report [OF evs]])
  have "checkpoint_before_report ((trace st @ evs) @ tail)"
    using c1 by (rule cbr_append_other) (use tail in auto)
  then show ?thesis by (simp add: tr)
qed

lemma run_epoch_reported_epochs:
  assumes "run_epoch fw env trainloader valloader epoch st = (out, st')"
  shows "reported_epochs (trace st')
           = reported_epochs (trace st) @ (if out = None \<or> out = Some Stopped then [epoch] else [])"
proof (cases "out = None \<or> out = Some Stopped")
  case True
  from run_epoch_trace_reported [OF assms True] obtain evs path loss accuracy where
    tr: "trace st' = trace st @ evs @ [Checkpoint epoch path, Report epoch loss accuracy]"
    and evs: "\<forall>ev\<in>set evs. is_training_event ev" by blast
  show ?thesis using True
    by (simp add: tr reported_epochs_append reported_epochs_training [OF evs])
next
  case False
  from run_epoch_trace_failed [OF assms False] obtain evs tail where
    tr: "trace st' = trace st @ evs @ tail"
    and evs: "\<forall>ev\<in>set evs. is_training_event ev"
    and tail: "tail = [] \<or> (\<exists>path. tail = [Checkpoint epoch path])" by blast
  from tail have "reported_epochs tail = []" by auto
  then show ?thesis using False
    by (simp add: tr reported_epochs_append reported_epochs_training [OF evs])
qed

section \<open>The loop over the epochs\<close>

lemma epochs_loop_cbr:
  assumes "epochs_loop fw env trainloader valloader es st = (out, st')"
    and "checkpoint_before_report (trace st)"
  shows "checkpoint_before_report (trace st')"
  using assms
proof (induction es arbitrary: st)
  case Nil
  then show ?case by (auto intro!: cbr_append_other)
next
  case (Cons epoch es)
  obtain o1 st1 where r: "run_epoch fw env trainloader valloader epoch st = (o1, st1)"
    by (cases "run_epoch fw env trainloader valloader epoch st")
  have c: "checkpoint_before_report (trace st1)"
    using run_epoch_cbr [OF r Cons.prems(2)] .
  show ?case
  proof (cases o1)
    case None
    with Cons.prems(1) r have "epochs_loop fw env trainloader valloader es st1 = (out, st')"
      by simp
    then show ?thesis using c by (rule Cons.IH)
  next
    case (Some x)
    with Cons.prems(1) r have "st' = st1" by simp
    then show ?thesis using c by simp
  qed
qed

lemma epochs_loop_reported:
  assumes "epochs_loop fw env trainloader valloader es st = (out, st')"
  shows "\<exists>k\<le>length es. reported_epochs (trace st') = reported_epochs (trace st) @ take k es
           \<and> (out = Finished \<longrightarrow> k = length es)"
  using assms
proof (induction es arbitrary: st)
  case Nil
  then show ?case by (auto simp: reported_epochs_append)
next
  case (Cons epoch es)
  obtain o1 st1 where r: "run_epoch fw env trainloader valloader epoch st = (o1, st1)"
    by (cases "run_epoch fw env trainloader valloader epoch st")
  note re = run_epoch_reported_epochs [OF r]
  show ?case
  proof (cases o1)
    case None
    with Cons.prems r have "epochs_loop fw env trainloader valloader es st1 = (out, st')"
      by simp
    from Cons.IH [OF this] obtain k where k: "k \<le> length es"
      "reported_epochs (trace st') = reported_epochs (trace st1) @ take k es"
      "out = Finished \<longrightarrow> k = length es" by blast
    with re None show ?thesis by (intro exI [of _ "Suc k"]) simp
  next
    case (Some x)
    with Cons.prems r have eq: "st' = st1" "out = x" by simp_all
    show ?thesis
    proof (cases "x = Stopped")
      case True
      with re Some eq show ?thesis by (intro exI [of _ "Suc 0"]) simp
    next
      case False
      from run_epoch_not_Finished [OF r] Some have "x \<noteq> Finished" by simp
      with re Some eq False show ?thesis by (intro exI [of _ 0]) simp
    qed
  qed
qed





section \<open>The whole trial\<close>

lemma resume_keeps_trace: "resume checkpoint_dir st = Inr st1 \<Longrightarrow> trace st1 = trace st"
  by (auto simp: resume_def split: option.splits if_splits sum.splits prod.splits)

lemma train_cifar_cases:
  "(\<exists>e st. train_cifar fw env cfg checkpoint_dir fs = (Failed e, st) \<and> trace st = [])
   \<or> (\<exists>trainloader valloader st. trace st = []
         \<and> make_loaders env cfg = Inr (trainloader, valloader)
         \<and> train_cifar fw env cfg checkpoint_dir fs
             = epochs_loop fw env trainloader valloader [0..<10] st)"
proof -
  let ?st0 = "\<lparr>net = fw_Net fw (l1 cfg) (l2 cfg),
      opt = fw_SGD fw (fw_Net fw (l1 cfg) (l2 cfg)) (lr cfg), files = fs, trace = []\<rparr>"
  show ?thesis
  proof (cases "resume checkpoint_dir ?st0")
    case (Inl e)
    then have "train_cifar fw env cfg checkpoint_dir fs = (Failed e, ?st0)"
      by (simp add: train_cifar_def Let_def)
    then show ?thesis by simp
  next
    case (Inr st1)
    then have t1: "trace st1 = []" using resume_keeps_trace by fastforce
    show ?thesis
    proof (cases "make_loaders env cfg")
      case (Inl e)
      with Inr have "train_cifar fw env cfg checkpoint_dir fs = (Failed e, st1)"
        by (simp add: train_cifar_def Let_def)
      with t1 show ?thesis by simp
    next
      case (Inr ls)
      obtain trainloader valloader where ls: "ls = (trainloader, valloader)" by (cases ls)
      with Inr \<open>resume checkpoint_dir ?st0 = Inr st1\<close>
      have "train_cifar fw env cfg checkpoint_dir fs
              = epochs_loop fw env trainloader valloader [0..<10] st1"
        by (simp add: train_cifar_def Let_def)
      with t1 Inr ls show ?thesis by blast
    qed
  qed
qed


lemma train_cifar_reported:
  "\<exists>k\<le>10. reported_epochs (trace (snd (train_cifar fw env cfg checkpoint_dir fs))) = [0..<k]
          \<and> (fst (train_cifar fw env cfg checkpoint_dir fs) = Finished \<longrightarrow> k = 10)"
  using train_cifar_cases [of fw env cfg checkpoint_dir fs]
proof (elim disjE exE conjE)
  fix e st
  assume "train_cifar fw env cfg checkpoint_dir fs = (Failed e, st)" "trace st = []"
  then show ?thesis by (intro exI [of _ 0]) simp
next
  fix trainloader valloader st
  assume t: "trace st = []"
    and eq: "train_cifar fw env cfg checkpoint_dir fs
               = epochs_loop fw env trainloader valloader [0..<10] st"
  obtain out st' where r: "epochs_loop fw env trainloader valloader [0..<10] st = (out, st')"
    by (cases "epochs_loop fw env trainloader valloader [0..<10] st")
  from epochs_loop_reported [OF r] obtain k where k0: "k \<le> length [0..<10::nat]"
    and k2: "reported_epochs (trace st') = reported_epochs (trace st) @ take k [0..<10]"
    and k3: "out = Finished \<longrightarrow> k = length [0..<10::nat]" by blast
  from k0 have k1: "k \<le> 10" by simp
  have "take k [0..<10] = [0..<k]" using k1 by (simp add: take_upt)
  with k1 k2 k3 t eq r show ?thesis by (intro exI [of _ k]) simp
qed



lemma train_cifar_cbr:
  "checkpoint_before_report (trace (snd (train_cifar fw env cfg checkpoint_dir fs)))"
  using train_cifar_cases [of fw env cfg checkpoint_dir fs]
proof (elim disjE exE conjE)
  fix e st
  assume "train_cifar fw env cfg checkpoint_dir fs = (Failed e, st)" "trace st = []"
  then show ?thesis by (simp add: cbr_Nil)
next
  fix trainloader valloader st
  assume t: "trace st = []"
    and eq: "train_cifar fw env cfg checkpoint_dir fs
               = epochs_loop fw env trainloader valloader [0..<10] st"
  obtain out st' where r: "epochs_loop fw env trainloader valloader [0..<10] st = (out, st')"
    by (cases "epochs_loop fw env trainloader valloader [0..<10] st")
  have "checkpoint_before_report (trace st')"
    by (rule epochs_loop_cbr [OF r]) (simp add: t cbr_Nil)
  then show ?thesis by (simp add: eq r)
qed


section \<open>Checkpoints on the file system\<close>

lemma training_event_not_checkpoint:
  "is_training_event ev \<Longrightarrow> ev \<noteq> Checkpoint epoch path"
  by (cases ev) simp_all

lemma train_pass_stored:
  assumes "checkpoints_stored env st"
  shows "checkpoints_stored env (train_pass fw env trainloader epoch st)"
proof -
  obtain evs where evs: "trace (train_pass fw env trainloader epoch st) = trace st @ evs"
    "\<forall>ev\<in>set evs. is_training_event ev"
    using train_pass_trace by blast
  have "\<forall>e p. Checkpoint e p \<notin> set evs"
    using evs(2) training_event_not_checkpoint by blast
  then show ?thesis
    using assms by (simp add: checkpoints_stored_def evs(1) train_pass_files)
qed

lemma run_epoch_state:
  assumes "run_epoch fw env trainloader valloader epoch st = (out, st')"
  shows "st' = train_pass fw env trainloader epoch st
       \<or> (\<exists>tail. st' = (train_pass fw env trainloader epoch st)
             \<lparr>files := (files (train_pass fw env trainloader epoch st))
                 (checkpoint_path env epoch \<mapsto>
                    Pickled (net (train_pass fw env trainloader epoch st))
                            (opt (train_pass fw env trainloader epoch st))),
              trace := trace (train_pass fw env trainloader epoch st) @
                 Checkpoint epoch (checkpoint_path env epoch) # tail\<rparr>
           \<and> (tail = [] \<or> (\<exists>loss accuracy. tail = [Report epoch loss accuracy])))"
  using assms
  by (auto simp: run_epoch_def validation_pass_def save_checkpoint_def checkpoint_path_def
      Let_def split: sum.splits prod.splits if_splits)

lemma run_epoch_stored:
  assumes "run_epoch fw env trainloader valloader epoch st = (out, st')"
    and "checkpoints_stored env st"
  shows "checkpoints_stored env st'"
proof -
  let ?st1 = "train_pass fw env trainloader epoch st"
  have s1: "checkpoints_stored env ?st1" using assms(2) by (rule train_pass_stored)
  from run_epoch_state [OF assms(1)] consider
      (unsaved) "st' = ?st1"
    | (saved) tail where
        "st' = ?st1\<lparr>files := (files ?st1)(checkpoint_path env epoch \<mapsto>
                    Pickled (net ?st1) (opt ?st1)),
              trace := trace ?st1 @ Checkpoint epoch (checkpoint_path env epoch) # tail\<rparr>"
        "tail = [] \<or> (\<exists>loss accuracy. tail = [Report epoch loss accuracy])"
    by blast
  then show ?thesis
  proof cases
    case unsaved
    with s1 show ?thesis by simp
  next
    case (saved tail)
    note st' = saved(1) and tail = saved(2)
    from tail have nt: "\<forall>e p. Checkpoint e p \<notin> set tail" by auto
    show ?thesis
      unfolding checkpoints_stored_def
    proof (intro allI impI)
      fix e path
      assume "Checkpoint e path \<in> set (trace st')"
      then have "Checkpoint e path \<in> set (trace ?st1)
          \<or> (e = epoch \<and> path = checkpoint_path env epoch)"
        using nt by (auto simp: st')
      then show "path = checkpoint_path env e \<and> (\<exists>p s. files st' path = Some (Pickled p s))"
      proof
        assume "Checkpoint e path \<in> set (trace ?st1)"
        with s1 have "path = checkpoint_path env e" "\<exists>p s. files ?st1 path = Some (Pickled p s)"
          unfolding checkpoints_stored_def by blast+
        then show "path = checkpoint_path env e
            \<and> (\<exists>p s. files st' path = Some (Pickled p s))"
          by (auto simp: st')
      next
        assume "e = epoch \<and> path = checkpoint_path env epoch"
        then show "path = checkpoint_path env e
            \<and> (\<exists>p s. files st' path = Some (Pickled p s))"
          by (simp add: st')
      qed
    qed
  qed
qed

lemma epochs_loop_stored:
  assumes "epochs_loop fw env trainloader valloader es st = (out, st')"
    and "checkpoints_stored env st"
  shows "checkpoints_stored env st'"
  using assms
proof (induction es arbitrary: st)
  case Nil
  then show ?case by (auto simp: checkpoints_stored_def)
next
  case (Cons epoch es)
  obtain o1 st1 where r: "run_epoch fw env trainloader valloader epoch st = (o1, st1)"
    by (cases "run_epoch fw env trainloader valloader epoch st")
  have c: "checkpoints_stored env st1" using run_epoch_stored [OF r Cons.prems(2)] .
  show ?case
  proof (cases o1)
    case None
    with Cons.prems(1) r have "epochs_loop fw env trainloader valloader es st1 = (out, st')"
      by simp
    then show ?thesis using c by (rule Cons.IH)
  next
    case (Some x)
    with Cons.prems(1) r have "st' = st1" by simp
    then show ?thesis using c by simp
  qed
qed

lemma train_cifar_stored:
  "checkpoints_stored env (snd (train_cifar fw env cfg checkpoint_dir fs))"
  using train_cifar_cases [of fw env cfg checkpoint_dir fs]
proof (elim disjE exE conjE)
  fix e st
  assume "train_cifar fw env cfg checkpoint_dir fs = (Failed e, st)" "trace st = []"
  then show ?thesis by (simp add: checkpoints_stored_def)
next
  fix trainloader valloader st
  assume t: "trace st = []"
    and eq: "train_cifar fw env cfg checkpoint_dir fs
               = epochs_loop fw env trainloader valloader [0..<10] st"
  obtain out st' where r: "epochs_loop fw env trainloader valloader [0..<10] st = (out, st')"
    by (cases "epochs_loop fw env trainloader valloader [0..<10] st")
  have "checkpoints_stored env st'"
    by (rule epochs_loop_stored [OF r]) (simp add: t checkpoints_stored_def)
  then show ?thesis by (simp add: eq r)
qed

lemma run_epoch_checkpoint_at_report:
  assumes "run_epoch fw env trainloader valloader epoch st = (out, st')"
    and "out = None \<or> out = Some Stopped"
  shows "files st' (checkpoint_path env epoch) = Some (Pickled (net st') (opt st'))
       \<and> (\<exists>evs loss accuracy.
             trace st' = trace st @ evs
               @ [Checkpoint epoch (checkpoint_path env epoch), Report epoch loss accuracy]
             \<and> (\<forall>ev\<in>set evs. is_training_event ev))"
proof -
  let ?st1 = "train_pass fw env trainloader epoch st"
  obtain evs where evs: "trace ?st1 = trace st @ evs" "\<forall>ev\<in>set evs. is_training_event ev"
    using train_pass_trace by blast
  from run_epoch_reported [OF assms] obtain loss accuracy where
    st': "st' = ?st1
           \<lparr>files := (files ?st1)
               (path_join (checkpoint_dir_of env epoch) ''checkpoint'' \<mapsto>
                  Pickled (net ?st1) (opt ?st1)),
            trace := trace ?st1 @
               [Checkpoint epoch (path_join (checkpoint_dir_of env epoch) ''checkpoint''),
                Report epoch loss accuracy]\<rparr>"
    by blast
  have f: "files st' (checkpoint_path env epoch) = Some (Pickled (net st') (opt st'))"
    by (simp add: st' checkpoint_path_def)
  have "trace st' = trace st @ evs
          @ [Checkpoint epoch (checkpoint_path env epoch), Report epoch loss accuracy]"
    by (simp add: st' checkpoint_path_def evs(1))
  with f evs(2) show ?thesis by blast
qed

section \<open>Stopped and unstopped trials\<close>









lemma always_stop_trace:
  "trace (snd (train_cifar example_framework always_stop_environment example_config None
      Map.empty))
   = [Optimizer_step 0 0, Optimizer_step 0 1, Checkpoint 0 ''ckpt/checkpoint'',
      Report 0 (1 / 2) 1]"
  by code_simp

text \<open>
  Claim C6. In every run of \<open>train_cifar\<close>, whatever its outcome, each report comes
  after the checkpoint event of the same epoch, and the file of that checkpoint holds
  a pickled pair of states; the epochs that reported are \<open>0, 1, ..., k - 1\<close> for some
  \<open>k \<le> 10\<close>, each exactly once and in this order; and a run that finishes has reported
  in each of its ten epochs. In every epoch that reports, the trial as the report
  leaves it has the network and the optimizer of that moment stored in the epoch's
  checkpoint file, and the epoch added to the trace its optimizer steps, then the
  checkpoint, then the one report.
\<close>

theorem report_after_checkpoint:
  "(\<forall>i<length (trace (snd (train_cifar fw env cfg checkpoint_dir fs))).
      \<forall>epoch loss accuracy.
        trace (snd (train_cifar fw env cfg checkpoint_dir fs)) ! i = Report epoch loss accuracy
        \<longrightarrow> (\<exists>j<i. trace (snd (train_cifar fw env cfg checkpoint_dir fs)) ! j
                     = Checkpoint epoch (checkpoint_path env epoch))
            \<and> (\<exists>p s. files (snd (train_cifar fw env cfg checkpoint_dir fs))
                        (checkpoint_path env epoch) = Some (Pickled p s)))
   \<and> (\<exists>k\<le>10. reported_epochs (trace (snd (train_cifar fw env cfg checkpoint_dir fs))) = [0..<k])
   \<and> (fst (train_cifar fw env cfg checkpoint_dir fs) = Finished \<longrightarrow>
        reported_epochs (trace (snd (train_cifar fw env cfg checkpoint_dir fs))) = [0..<10])
   \<and> (run_epoch fw env trainloader valloader e st = (out, st')
        \<and> (out = None \<or> out = Some Stopped) \<longrightarrow>
        files st' (checkpoint_path env e) = Some (Pickled (net st') (opt st'))
        \<and> (\<exists>evs loss accuracy.
              trace st' = trace st @ evs
                @ [Checkpoint e (checkpoint_path env e), Report e loss accuracy]
              \<and> (\<forall>ev\<in>set evs. is_training_event ev)))"
proof (intro conjI)
  let ?R = "train_cifar fw env cfg checkpoint_dir fs"
  show "\<forall>i<length (trace (snd ?R)). \<forall>epoch loss accuracy.
        trace (snd ?R) ! i = Report epoch loss accuracy
        \<longrightarrow> (\<exists>j<i. trace (snd ?R) ! j = Checkpoint epoch (checkpoint_path env epoch))
            \<and> (\<exists>p s. files (snd ?R) (checkpoint_path env epoch) = Some (Pickled p s))"
  proof (intro allI impI)
    fix i epoch loss accuracy
    assume i: "i < length (trace (snd ?R))"
      and r: "trace (snd ?R) ! i = Report epoch loss accuracy"
    from train_cifar_cbr [of fw env cfg checkpoint_dir fs] i r
    obtain j path where j: "j < i" "trace (snd ?R) ! j = Checkpoint epoch path"
      unfolding checkpoint_before_report_def by blast
    from j i have "Checkpoint epoch path \<in> set (trace (snd ?R))"
      by (metis less_trans nth_mem)
    with train_cifar_stored [of env fw cfg checkpoint_dir fs]
    have "path = checkpoint_path env epoch"
      and "\<exists>p s. files (snd ?R) path = Some (Pickled p s)"
      unfolding checkpoints_stored_def by blast+
    with j show "(\<exists>j<i. trace (snd ?R) ! j = Checkpoint epoch (checkpoint_path env epoch))
            \<and> (\<exists>p s. files (snd ?R) (checkpoint_path env epoch) = Some (Pickled p s))"
      by blast
  qed
next
  show "\<exists>k\<le>10. reported_epochs (trace (snd (train_cifar fw env cfg checkpoint_dir fs))) = [0..<k]"
    using train_cifar_reported [of fw env cfg checkpoint_dir fs] by blast
next
  show "fst (train_cifar fw env cfg checkpoint_dir fs) = Finished \<longrightarrow>
        reported_epochs (trace (snd (train_cifar fw env cfg checkpoint_dir fs))) = [0..<10]"
    using train_cifar_reported [of fw env cfg checkpoint_dir fs] by auto
next
  show "run_epoch fw env trainloader valloader e st = (out, st')
        \<and> (out = None \<or> out = Some Stopped) \<longrightarrow>
        files st' (checkpoint_path env e) = Some (Pickled (net st') (opt st'))
        \<and> (\<exists>evs loss accuracy.
              trace st' = trace st @ evs
                @ [Checkpoint e (checkpoint_path env e), Report e loss accuracy]
              \<and> (\<forall>ev\<in>set evs. is_training_event ev))"
    using run_epoch_checkpoint_at_report [of fw env trainloader valloader e st out st'] by blast
qed

theorem report_after_checkpoint_witness:
  "trace (snd (train_cifar example_framework always_stop_environment example_config None
      Map.empty)) ! 3 = Report 0 (1 / 2) 1
   \<and> (\<exists>j<3. trace (snd (train_cifar example_framework always_stop_environment
        example_config None Map.empty)) ! j = Checkpoint 0 ''ckpt/checkpoint'')
   \<and> (\<exists>p s. files (snd (train_cifar example_framework always_stop_environment
        example_config None Map.empty)) ''ckpt/checkpoint'' = Some (Pickled p s))
   \<and> fst (run_epoch example_framework example_environment example_trainloader
        example_valloader 0 example_trial) = None
   \<and> files (snd (run_epoch example_framework example_environment example_trainloader
        example_valloader 0 example_trial)) ''ckpt/checkpoint'' = Some (Pickled 2 4)"
proof -
  let ?R = "train_cifar example_framework always_stop_environment example_config None Map.empty"
  let ?E = "run_epoch example_framework example_environment example_trainloader
        example_valloader 0 example_trial"
  have len: "3 < length (trace (snd ?R))" by (simp add: always_stop_trace)
  have rep: "trace (snd ?R) ! 3 = Report 0 (1 / 2) 1" by (simp add: always_stop_trace)
  have cp1: "checkpoint_path always_stop_environment 0 = ''ckpt/checkpoint''" by code_simp
  have cp2: "checkpoint_path example_environment 0 = ''ckpt/checkpoint''" by code_simp
  have e: "?E = (fst ?E, snd ?E)" by simp
  have out: "fst ?E = None \<or> fst ?E = Some Stopped" by (simp add: example_epoch_continues)
  have st: "net (snd ?E) = 2" "opt (snd ?E) = 4" by code_simp+
  from report_after_checkpoint [where fw = example_framework
      and env = always_stop_environment and cfg = example_config and checkpoint_dir = None
      and fs = Map.empty] len rep
  have a: "(\<exists>j<3. trace (snd ?R) ! j = Checkpoint 0 (checkpoint_path always_stop_environment 0))
      \<and> (\<exists>p s. files (snd ?R) (checkpoint_path always_stop_environment 0) = Some (Pickled p s))"
    by blast
  from report_after_checkpoint [where fw = example_framework and env = example_environment
      and trainloader = example_trainloader and valloader = example_valloader and e = 0
      and st = example_trial and out = "fst ?E" and st' = "snd ?E"] e out
  have b: "files (snd ?E) (checkpoint_path example_environment 0)
             = Some (Pickled (net (snd ?E)) (opt (snd ?E)))"
    by blast
  from a b rep show ?thesis
    unfolding cp1 cp2 st using example_epoch_continues by blast
qed





end
